theory Spec2Isabelle
  imports Complex_Main "HOL-Library.Stream"
begin

section \<open>The plotter driver of draw.py\<close>

text \<open>
  A shallow embedding of \<^verbatim>\<open>src/draw.py\<close>: the \<^verbatim>\<open>Scaler\<close> class, the
  \<^verbatim>\<open>send\<close> request/acknowledge loop, \<^verbatim>\<open>plot_drawing\<close>,
  \<^verbatim>\<open>stream_and_plot\<close> and \<^verbatim>\<open>main\<close>.

  Modelling decisions:
  \<^item> Python numbers are modelled as exact reals (\<^typ>\<open>real\<close>): rounding of binary floating
    point is not modelled, and neither are infinities and NaN.
  \<^item> A Python exception is a value of \<open>pyerror\<close>; a computation that may raise, or
    may never return, has type \<open>'a run\<close>, where \<open>None\<close> is "does not return",
    \<open>Some (Inl e)\<close> is "raises e" and \<open>Some (Inr v)\<close> is "returns v".
  \<^item> The text of a G-code line is kept abstract: a \<open>cmd\<close> stands for the line that
    \<^verbatim>\<open>plot_drawing\<close> formats (\<open>PenUp\<close> for \<^verbatim>\<open>G1 Z0 F7000\<close>, \<open>PenDown\<close> for
    \<^verbatim>\<open>G1 Z-8 F7000\<close>, \<open>RapidMove x y\<close> for \<^verbatim>\<open>G0 X.. Y.. F11500\<close>,
    \<open>FeedMove x y f\<close> for \<^verbatim>\<open>G1 X.. Y.. F..\<close>), \<open>Gcode\<close> carries a fixed string.
  \<^item> Console output (\<^verbatim>\<open>print\<close>) and \<^verbatim>\<open>time.sleep\<close> are not part of the state.
\<close>

subsection \<open>Exceptions and the run monad\<close>

datatype pyerror = ZeroDivisionError | ValueError | IndexError | AttributeError | TypeError

type_synonym 'a run = "(pyerror + 'a) option"

definition bind_run :: "'a run \<Rightarrow> ('a \<Rightarrow> 'b run) \<Rightarrow> 'b run" where
  "bind_run m f = (case m of
       None \<Rightarrow> None
     | Some (Inl e) \<Rightarrow> Some (Inl e)
     | Some (Inr v) \<Rightarrow> f v)"

subsection \<open>Settings\<close>

definition SPEED_MULTIPLIER :: real where
  "SPEED_MULTIPLIER = 20"

definition BOUNDS :: real where
  "BOUNDS = 250"

subsection \<open>Scaler\<close>

text \<open>
  \<^verbatim>\<open>random.uniform(a, b)\<close> computes \<^verbatim>\<open>a + (b - a) * random()\<close>, with \<^verbatim>\<open>random()\<close>
  in the unit interval. The three unit draws that one construction of a \<^verbatim>\<open>Scaler\<close>
  consumes are an argument of the model.
\<close>

record draws =
  draw_scale :: real
  draw_x :: real
  draw_y :: real

definition uniform :: "real \<Rightarrow> real \<Rightarrow> real \<Rightarrow> real" where
  "uniform a b r = a + (b - a) * r"

record scaler =
  smaller_scale :: real
  offset_x :: real
  offset_y :: real
  min_x :: real
  min_y :: real
  multiplier :: real

text \<open>
  \<^verbatim>\<open>Scaler.__init__\<close>. The division \<^verbatim>\<open>bounds / max(x_range, y_range)\<close> raises
  \<^verbatim>\<open>ZeroDivisionError\<close> in Python when the divisor is zero (in HOL it would be 0).
\<close>

definition Scaler_init :: "real \<Rightarrow> real \<Rightarrow> real \<Rightarrow> real \<Rightarrow> real \<Rightarrow> draws \<Rightarrow> pyerror + scaler" where
  "Scaler_init minx maxx miny maxy bounds rnd =
     (let x_range = maxx - minx;
          y_range = maxy - miny
      in if max x_range y_range = 0 then Inl ZeroDivisionError
         else
           let master_scale = bounds / max x_range y_range;
               smaller = uniform 0.25 0.75 (draw_scale rnd);
               final_w = x_range * master_scale * smaller;
               final_h = y_range * master_scale * smaller;
               max_offset_x = bounds - final_w;
               max_offset_y = bounds - final_h
           in Inr \<lparr>smaller_scale = smaller,
                   offset_x = uniform 0 max_offset_x (draw_x rnd),
                   offset_y = uniform 0 max_offset_y (draw_y rnd),
                   min_x = minx,
                   min_y = miny,
                   multiplier = master_scale * smaller\<rparr>)"

definition scale :: "scaler \<Rightarrow> real \<Rightarrow> real \<Rightarrow> real \<times> real" where
  "scale sc x y =
     (let new_x = (x - min_x sc) * multiplier sc + offset_x sc + 5;
          new_y = - ((y - min_y sc) * multiplier sc + offset_y sc + 5)
      in (new_x, new_y))"

subsection \<open>The transport\<close>

text \<open>
  The object \<^verbatim>\<open>s\<close> handed to \<^verbatim>\<open>send\<close> is a \<^verbatim>\<open>serial.Serial\<close>, an instance of
  \<^verbatim>\<open>MockSerialPort\<close> (what \<^verbatim>\<open>main\<close> builds when the port cannot be opened), or, the
  only object for which \<^verbatim>\<open>s is not MockSerialPort\<close> is false, the class
  \<^verbatim>\<open>MockSerialPort\<close> itself.

  \<open>rx\<close> is what the successive calls of \<^verbatim>\<open>readline()\<close> return, decoded: the port is
  opened with \<^verbatim>\<open>timeout=1\<close>, so a read with nothing to deliver returns the empty string.
  \<open>tx\<close> is the list of commands written so far.
\<close>

datatype cmd = PenUp | PenDown | RapidMove real real | FeedMove real real real | Gcode string

datatype channel_result = Acknowledged | DeviceFault string

datatype port_kind = SerialPort | MockSerialPort_instance | MockSerialPort_class

record transport =
  kind :: port_kind
  rx :: "string stream"
  tx :: "cmd list"

text \<open>
  \<^verbatim>\<open>s.write(...)\<close> (\<open>write\<close> is a keyword of Isabelle, hence the name). Called on
  the class itself, the function misses its \<^verbatim>\<open>data\<close> argument (\<^verbatim>\<open>TypeError\<close>).
\<close>

definition write_port :: "transport \<Rightarrow> cmd \<Rightarrow> pyerror + transport" where
  "write_port s c = (case kind s of
       SerialPort \<Rightarrow> Inr (s\<lparr>tx := tx s @ [c]\<rparr>)
     | MockSerialPort_instance \<Rightarrow> Inr (s\<lparr>tx := tx s @ [c]\<rparr>)
     | MockSerialPort_class \<Rightarrow> Inl TypeError)"

text \<open>\<^verbatim>\<open>s.readline()\<close>: \<^verbatim>\<open>MockSerialPort\<close> defines no such method.\<close>

definition readline :: "transport \<Rightarrow> pyerror + string \<times> transport" where
  "readline s = (case kind s of
       SerialPort \<Rightarrow> Inr (shd (rx s), s\<lparr>rx := stl (rx s)\<rparr>)
     | MockSerialPort_instance \<Rightarrow> Inl AttributeError
     | MockSerialPort_class \<Rightarrow> Inl AttributeError)"

text \<open>\<^verbatim>\<open>needle in hay\<close> on strings.\<close>

fun contains :: "string \<Rightarrow> string \<Rightarrow> bool" where
  "contains n [] = (n = [])"
| "contains n (c # cs) = (take (length n) (c # cs) = n \<or> contains n cs)"

text \<open>\<^verbatim>\<open>str.lower\<close> and \<^verbatim>\<open>str.strip\<close>, on ASCII text.\<close>

definition lower_char :: "char \<Rightarrow> char" where
  "lower_char c =
     (case map_of (zip ''ABCDEFGHIJKLMNOPQRSTUVWXYZ'' ''abcdefghijklmnopqrstuvwxyz'') c of
        Some d \<Rightarrow> d
      | None \<Rightarrow> c)"

definition lower :: "string \<Rightarrow> string" where
  "lower l = map lower_char l"

definition isspace :: "char \<Rightarrow> bool" where
  "isspace c = (c \<in> set [CHR '' '', CHR 0x09, CHR 0x0A, CHR 0x0B, CHR 0x0C, CHR 0x0D,
                         CHR 0x1C, CHR 0x1D, CHR 0x1E, CHR 0x1F])"

definition strip :: "string \<Rightarrow> string" where
  "strip l = rev (dropWhile isspace (rev (dropWhile isspace l)))"

text \<open>A line on which the loop of \<^verbatim>\<open>send\<close> stops: it holds one of the three tokens.\<close>

definition decisive :: "string \<Rightarrow> bool" where
  "decisive raw =
     (contains ''ok'' (lower (strip raw)) \<or> contains ''error'' (lower (strip raw)) \<or>
      contains ''alarm'' (lower (strip raw)))"

subsection \<open>send\<close>

text \<open>
  The \<^verbatim>\<open>while True\<close> loop of \<^verbatim>\<open>send\<close>. It has no exit but the two \<^verbatim>\<open>break\<close>s, so
  it is a partial function: \<open>None\<close> is the loop that never leaves. \<^verbatim>\<open>send\<close> returns
  nothing in Python; the model returns which \<^verbatim>\<open>break\<close> was taken: \<open>Acknowledged\<close> for
  the first, \<open>DeviceFault line\<close> for the second (the one that prints
  \<^verbatim>\<open>!!! MACHINE ERROR: line\<close>).
\<close>

partial_function (option) await_ack :: "transport \<Rightarrow> (pyerror + channel_result \<times> transport) option" where
  "await_ack s =
     (case readline s of
        Inl e \<Rightarrow> Some (Inl e)
      | Inr (raw, s') \<Rightarrow>
          (let line = strip raw in
           if contains ''ok'' (lower line) then Some (Inr (Acknowledged, s'))
           else if contains ''error'' (lower line) \<or> contains ''alarm'' (lower line)
                then Some (Inr (DeviceFault line, s'))
           else await_ack s'))"

text \<open>
  \<^verbatim>\<open>send\<close>. The test \<^verbatim>\<open>s is not MockSerialPort\<close> compares \<^verbatim>\<open>s\<close> with the class
  object. In the \<^verbatim>\<open>else\<close> branch \<^verbatim>\<open>s\<close> is therefore the class: \<^verbatim>\<open>s.in_waiting\<close> is
  the property object, which is true, and \<^verbatim>\<open>s.readline\<close> does not exist.
\<close>

definition send :: "transport \<Rightarrow> cmd \<Rightarrow> (channel_result \<times> transport) run" where
  "send s c =
     (case write_port s c of
        Inl e \<Rightarrow> Some (Inl e)
      | Inr s1 \<Rightarrow>
          if kind s1 \<noteq> MockSerialPort_class then await_ack s1
          else Some (Inl AttributeError))"

subsection \<open>plot\_drawing\<close>

type_synonym stroke = "real list \<times> real list \<times> real list"

record drawing_data =
  word :: string
  drawing :: "stroke list"

text \<open>\<^verbatim>\<open>min(xs)\<close> and \<^verbatim>\<open>max(xs)\<close> of a list: \<^verbatim>\<open>ValueError\<close> on the empty list.\<close>

fun py_min :: "real list \<Rightarrow> pyerror + real" where
  "py_min [] = Inl ValueError"
| "py_min (x # xs) = Inr (fold min xs x)"

fun py_max :: "real list \<Rightarrow> pyerror + real" where
  "py_max [] = Inl ValueError"
| "py_max (x # xs) = Inr (fold max xs x)"

text \<open>
  The first loop of \<^verbatim>\<open>plot_drawing\<close>. The accumulator is \<open>None\<close> while the four
  variables still hold their initial infinities, and \<open>Some (min_x, max_x, min_y, max_y)\<close>
  after the first stroke.
\<close>

fun bounding_box :: "(real \<times> real \<times> real \<times> real) option \<Rightarrow> stroke list \<Rightarrow>
    pyerror + (real \<times> real \<times> real \<times> real) option" where
  "bounding_box acc [] = Inr acc"
| "bounding_box acc ((xs, ys, ts) # rest) =
     (case py_min xs of Inl e \<Rightarrow> Inl e | Inr lo_x \<Rightarrow>
     (case py_max xs of Inl e \<Rightarrow> Inl e | Inr hi_x \<Rightarrow>
     (case py_min ys of Inl e \<Rightarrow> Inl e | Inr lo_y \<Rightarrow>
     (case py_max ys of Inl e \<Rightarrow> Inl e | Inr hi_y \<Rightarrow>
        bounding_box
          (case acc of
             None \<Rightarrow> Some (lo_x, hi_x, lo_y, hi_y)
           | Some (a, b, c, d) \<Rightarrow> Some (min a lo_x, max b hi_x, min c lo_y, max d hi_y))
          rest))))"

text \<open>
  The body of the inner loop up to its \<^verbatim>\<open>send\<close>, for an index \<open>i\<close> of
  \<^verbatim>\<open>range(1, len(x_coords))\<close>: \<open>Inr None\<close> is a \<^verbatim>\<open>continue\<close>, \<open>Inr (Some c)\<close> is the
  command handed to \<^verbatim>\<open>send\<close>, \<open>Inl IndexError\<close> is a list read past its end.
  The loop starts at 1, so \<open>i - 1\<close> is never a negative index.
\<close>

definition feed_move :: "scaler \<Rightarrow> real list \<Rightarrow> real list \<Rightarrow> real list \<Rightarrow> nat \<Rightarrow> pyerror + cmd option" where
  "feed_move sc x_coords y_coords timestamps i =
     (if \<not> i < length timestamps then Inl IndexError
      else
        let delta_ms = timestamps ! i - timestamps ! (i - 1);
            delay_seconds = delta_ms / 1000
        in if delay_seconds \<le> 0 then Inr None
           else if \<not> i < length x_coords then Inl IndexError
           else if \<not> i < length y_coords then Inl IndexError
           else
             (case scale sc (x_coords ! i) (y_coords ! i) of (x, y) \<Rightarrow>
             (case scale sc (x_coords ! (i - 1)) (y_coords ! (i - 1)) of (x_prior, y_prior) \<Rightarrow>
               let velocity = sqrt ((x - x_prior)\<^sup>2 + (y - y_prior)\<^sup>2) / delay_seconds
               in if velocity \<le> 0 then Inr None
                  else
                    let clamped_velocity = min (velocity * SPEED_MULTIPLIER) 11500
                    in Inr (Some (FeedMove x y clamped_velocity)))))"

fun segments_loop :: "scaler \<Rightarrow> real list \<Rightarrow> real list \<Rightarrow> real list \<Rightarrow> transport \<Rightarrow> nat list \<Rightarrow>
    transport run" where
  "segments_loop sc x_coords y_coords timestamps s [] = Some (Inr s)"
| "segments_loop sc x_coords y_coords timestamps s (i # rest) =
     (case feed_move sc x_coords y_coords timestamps i of
        Inl e \<Rightarrow> Some (Inl e)
      | Inr None \<Rightarrow> segments_loop sc x_coords y_coords timestamps s rest
      | Inr (Some c) \<Rightarrow>
          bind_run (send s c)
            (\<lambda>(r, s'). segments_loop sc x_coords y_coords timestamps s' rest))"

text \<open>The body of the loop over the strokes.\<close>

definition plot_stroke :: "scaler \<Rightarrow> transport \<Rightarrow> stroke \<Rightarrow> transport run" where
  "plot_stroke sc s st =
     (case st of (x_coords, y_coords, timestamps) \<Rightarrow>
        bind_run (send s PenUp) (\<lambda>(r1, s1).
          if x_coords = [] \<or> y_coords = [] then Some (Inl IndexError)
          else
            case scale sc (x_coords ! 0) (y_coords ! 0) of (start_x, start_y) \<Rightarrow>
              bind_run (send s1 (RapidMove start_x start_y)) (\<lambda>(r2, s2).
              bind_run (send s2 PenDown) (\<lambda>(r3, s3).
                segments_loop sc x_coords y_coords timestamps s3 [1..<length x_coords]))))"

fun strokes_loop :: "scaler \<Rightarrow> transport \<Rightarrow> stroke list \<Rightarrow> transport run" where
  "strokes_loop sc s [] = Some (Inr s)"
| "strokes_loop sc s (st # rest) =
     bind_run (plot_stroke sc s st) (\<lambda>s'. strokes_loop sc s' rest)"

text \<open>
  \<^verbatim>\<open>plot_drawing\<close>. With no stroke at all the \<^verbatim>\<open>Scaler\<close> is built from the
  infinities (floating point division by an infinity does not raise) and never used:
  only the closing pen-up is sent.
\<close>

definition plot_drawing :: "transport \<Rightarrow> drawing_data \<Rightarrow> draws \<Rightarrow> transport run" where
  "plot_drawing s drawing_data rnd =
     (let strokes = drawing drawing_data in
      case bounding_box None strokes of
        Inl e \<Rightarrow> Some (Inl e)
      | Inr None \<Rightarrow> bind_run (send s PenUp) (\<lambda>(r, s'). Some (Inr s'))
      | Inr (Some (minx, maxx, miny, maxy)) \<Rightarrow>
          (case Scaler_init minx maxx miny maxy BOUNDS rnd of
             Inl e \<Rightarrow> Some (Inl e)
           | Inr scaler \<Rightarrow>
               bind_run (strokes_loop scaler s strokes) (\<lambda>s1.
               bind_run (send s1 PenUp) (\<lambda>(r, s'). Some (Inr s')))))"

subsection \<open>stream\_and\_plot\<close>

text \<open>
  The loop over \<^verbatim>\<open>response.iter_lines()\<close>: a line is \<open>None\<close> when it is empty and
  \<open>Some d\<close> when \<^verbatim>\<open>json.loads\<close> turns it into the drawing \<open>d\<close>. \<open>rnd k\<close> are the
  random draws of the \<^verbatim>\<open>Scaler\<close> of the drawing plotted when \<^verbatim>\<open>count\<close> is \<open>k\<close>.
\<close>

fun lines_loop :: "(nat \<Rightarrow> draws) \<Rightarrow> int \<Rightarrow> nat \<Rightarrow> transport \<Rightarrow> drawing_data option list \<Rightarrow>
    transport run" where
  "lines_loop rnd limit count s [] = Some (Inr s)"
| "lines_loop rnd limit count s (line # rest) =
     (if line \<noteq> None \<and> int count < limit then
        bind_run (plot_drawing s (the line) (rnd count))
          (\<lambda>s'. lines_loop rnd limit (count + 1) s' rest)
      else if int count \<ge> limit then Some (Inr s)
      else lines_loop rnd limit count s rest)"

definition stream_and_plot :: "transport \<Rightarrow> drawing_data option list \<Rightarrow> int \<Rightarrow> (nat \<Rightarrow> draws) \<Rightarrow>
    transport run" where
  "stream_and_plot s lines limit rnd = lines_loop rnd limit 0 s lines"

subsection \<open>main\<close>

text \<open>Sending a list of commands, one after the other.\<close>

fun send_all :: "transport \<Rightarrow> cmd list \<Rightarrow> transport run" where
  "send_all s [] = Some (Inr s)"
| "send_all s (c # cs) = bind_run (send s c) (\<lambda>(r, s'). send_all s' cs)"

text \<open>
  \<^verbatim>\<open>main\<close>: \<open>port_opens\<close> tells whether \<^verbatim>\<open>serial.Serial(PORT, BAUD, timeout=1)\<close>
  succeeds, \<open>replies\<close> is what the device sends after \<^verbatim>\<open>reset_plotter\<close> has emptied
  the input buffer, \<open>lines\<close> is the content of the dataset file. The two writes of
  \<^verbatim>\<open>reset_plotter\<close> (the byte 0x18 and \<^verbatim>\<open>$X\<close>) are the first entries of \<open>tx\<close>.
\<close>

definition main :: "bool \<Rightarrow> string stream \<Rightarrow> drawing_data option list \<Rightarrow> (nat \<Rightarrow> draws) \<Rightarrow>
    transport run" where
  "main port_opens replies lines rnd =
     (let s = (if port_opens
               then \<lparr>kind = SerialPort, rx = replies, tx = [Gcode [CHR 0x18], Gcode ''$X'']\<rparr>
               else \<lparr>kind = MockSerialPort_instance, rx = replies, tx = []\<rparr>)
      in bind_run
           (send_all s [Gcode ''G21'', Gcode ''G90'', Gcode ''$32=0'', Gcode ''$20=0'',
                        Gcode ''$130=600'', Gcode ''$131=600'', Gcode ''G10 L20 P1 X0 Y0 Z0''])
           (\<lambda>s1. bind_run (stream_and_plot s1 lines 1 rnd)
           (\<lambda>s2. send_all s2 [PenUp, Gcode ''G0 X0 Y0''])))"

subsection \<open>The commands of a drawing\<close>

text \<open>
  The Motion Synthesizer of the specification, as a function of its own: the list of commands that
  \<^verbatim>\<open>plot_drawing\<close> hands to \<^verbatim>\<open>send\<close>, in order, when nothing raises. It is
  related to \<open>plot_drawing\<close> by the lemma \<open>plot_drawing_tx\<close> below.
\<close>

definition segment_cmds :: "scaler \<Rightarrow> real list \<Rightarrow> real list \<Rightarrow> real list \<Rightarrow> nat list \<Rightarrow> cmd list" where
  "segment_cmds sc x_coords y_coords timestamps idx =
     concat (map (\<lambda>i. case feed_move sc x_coords y_coords timestamps i of
                         Inr (Some c) \<Rightarrow> [c]
                       | _ \<Rightarrow> []) idx)"

definition stroke_cmds :: "scaler \<Rightarrow> stroke \<Rightarrow> cmd list" where
  "stroke_cmds sc st =
     (case st of (x_coords, y_coords, timestamps) \<Rightarrow>
        [PenUp,
         RapidMove (fst (scale sc (x_coords ! 0) (y_coords ! 0)))
                   (snd (scale sc (x_coords ! 0) (y_coords ! 0))),
         PenDown]
        @ segment_cmds sc x_coords y_coords timestamps [1..<length x_coords])"

definition drawing_cmds :: "drawing_data \<Rightarrow> draws \<Rightarrow> cmd list" where
  "drawing_cmds d rnd =
     (case bounding_box None (drawing d) of
        Inl e \<Rightarrow> []
      | Inr None \<Rightarrow> [PenUp]
      | Inr (Some (minx, maxx, miny, maxy)) \<Rightarrow>
          (case Scaler_init minx maxx miny maxy BOUNDS rnd of
             Inl e \<Rightarrow> []
           | Inr sc \<Rightarrow> concat (map (stroke_cmds sc) (drawing d)) @ [PenUp]))"

text \<open>The \<^verbatim>\<open>velocity\<close> that the inner loop computes for the segment ending at index \<open>i\<close>.\<close>

definition segment_velocity :: "scaler \<Rightarrow> real list \<Rightarrow> real list \<Rightarrow> real list \<Rightarrow> nat \<Rightarrow> real" where
  "segment_velocity sc x_coords y_coords timestamps i =
     (let p = scale sc (x_coords ! i) (y_coords ! i);
          q = scale sc (x_coords ! (i - 1)) (y_coords ! (i - 1))
      in sqrt ((fst p - fst q)\<^sup>2 + (snd p - snd q)\<^sup>2) /
         ((timestamps ! i - timestamps ! (i - 1)) / 1000))"

subsection \<open>The drawings of a run\<close>

text \<open>
  The Drawing Driver of the specification, as functions of their own: the drawings that a stream
  of lines holds, and the plotting of a list of drawings one after the other, the
  drawing plotted when \<^verbatim>\<open>count\<close> is \<open>k\<close> taking the random draws \<open>rnd k\<close>.
\<close>

definition drawings_of :: "drawing_data option list \<Rightarrow> drawing_data list" where
  "drawings_of lines = map the (filter (\<lambda>line. line \<noteq> None) lines)"

fun plot_all :: "(nat \<Rightarrow> draws) \<Rightarrow> nat \<Rightarrow> transport \<Rightarrow> drawing_data list \<Rightarrow> transport run" where
  "plot_all rnd count s [] = Some (Inr s)"
| "plot_all rnd count s (d # ds) =
     bind_run (plot_drawing s d (rnd count)) (\<lambda>s'. plot_all rnd (count + 1) s' ds)"

section \<open>Properties\<close>

subsection \<open>The acknowledgment wait\<close>

lemma readline_serial:
  "kind s = SerialPort \<Longrightarrow> readline s = Inr (shd (rx s), s\<lparr>rx := stl (rx s)\<rparr>)"
  by (simp add: readline_def)

lemma await_ack_not_serial:
  "kind s \<noteq> SerialPort \<Longrightarrow> await_ack s = Some (Inl AttributeError)"
  by (subst await_ack.simps) (simp add: readline_def split: port_kind.splits)

lemma await_ack_ok:
  "kind s = SerialPort \<Longrightarrow> contains ''ok'' (lower (strip (shd (rx s)))) \<Longrightarrow>
   await_ack s = Some (Inr (Acknowledged, s\<lparr>rx := stl (rx s)\<rparr>))"
  by (subst await_ack.simps) (simp add: readline_serial Let_def)

lemma await_ack_fault:
  "kind s = SerialPort \<Longrightarrow> \<not> contains ''ok'' (lower (strip (shd (rx s)))) \<Longrightarrow>
   contains ''error'' (lower (strip (shd (rx s)))) \<or> contains ''alarm'' (lower (strip (shd (rx s)))) \<Longrightarrow>
   await_ack s = Some (Inr (DeviceFault (strip (shd (rx s))), s\<lparr>rx := stl (rx s)\<rparr>))"
  by (subst await_ack.simps) (simp add: readline_serial Let_def)

lemma await_ack_skip:
  "kind s = SerialPort \<Longrightarrow> \<not> decisive (shd (rx s)) \<Longrightarrow>
   await_ack s = await_ack (s\<lparr>rx := stl (rx s)\<rparr>)"
  by (subst await_ack.simps) (simp add: readline_serial decisive_def Let_def)

lemma await_ack_returns_decisive:
  assumes ret: "await_ack s = Some y"
  shows "kind s = SerialPort \<longrightarrow> (\<exists>n. decisive (rx s !! n))"
proof (rule await_ack.raw_induct
    [where P = "\<lambda>s y. kind s = SerialPort \<longrightarrow> (\<exists>n. decisive (rx s !! n))", OF _ ret])
  fix f s y
  assume IH: "\<And>x y. f x = Some y \<Longrightarrow> kind x = SerialPort \<longrightarrow> (\<exists>n. decisive (rx x !! n))"
    and step: "(case readline s of
        Inl e \<Rightarrow> Some (Inl e)
      | Inr (raw, s') \<Rightarrow>
          (let line = strip raw in
           if contains ''ok'' (lower line) then Some (Inr (Acknowledged, s'))
           else if contains ''error'' (lower line) \<or> contains ''alarm'' (lower line)
                then Some (Inr (DeviceFault line, s'))
           else f s')) = Some y"
  show "kind s = SerialPort \<longrightarrow> (\<exists>n. decisive (rx s !! n))"
  proof
    assume k: "kind s = SerialPort"
    show "\<exists>n. decisive (rx s !! n)"
    proof (cases "decisive (shd (rx s))")
      case True
      then have "decisive (rx s !! 0)" by simp
      then show ?thesis by blast
    next
      case False
      with k step have "f (s\<lparr>rx := stl (rx s)\<rparr>) = Some y"
        by (simp add: readline_serial decisive_def Let_def)
      from IH[OF this] k obtain n where "decisive (stl (rx s) !! n)" by auto
      then have "decisive (rx s !! Suc n)" by simp
      then show ?thesis by blast
    qed
  qed
qed

lemma await_ack_decisive_returns:
  "kind s = SerialPort \<Longrightarrow> decisive (rx s !! n) \<Longrightarrow> \<exists>y. await_ack s = Some y"
proof (induction n arbitrary: s)
  case 0
  then have d: "decisive (shd (rx s))" by simp
  show ?case
  proof (cases "contains ''ok'' (lower (strip (shd (rx s))))")
    case True
    with 0 show ?thesis by (simp add: await_ack_ok)
  next
    case False
    with d have "contains ''error'' (lower (strip (shd (rx s)))) \<or> contains ''alarm'' (lower (strip (shd (rx s))))"
      by (simp add: decisive_def)
    with False 0 show ?thesis by (simp add: await_ack_fault)
  qed
next
  case (Suc n)
  show ?case
  proof (cases "decisive (shd (rx s))")
    case True
    then have "decisive (rx s !! 0)" by simp
    from Suc.prems(1) this show ?thesis
      by (cases "contains ''ok'' (lower (strip (shd (rx s))))")
         (auto simp: await_ack_ok await_ack_fault decisive_def)
  next
    case False
    have "\<exists>y. await_ack (s\<lparr>rx := stl (rx s)\<rparr>) = Some y"
      using Suc.prems by (intro Suc.IH) simp_all
    with False Suc.prems(1) show ?thesis by (simp add: await_ack_skip)
  qed
qed

lemma send_serial: "kind s = SerialPort \<Longrightarrow> send s c = await_ack (s\<lparr>tx := tx s @ [c]\<rparr>)"
  by (simp add: send_def write_port_def)

lemma send_mock_instance: "kind s = MockSerialPort_instance \<Longrightarrow> send s c = Some (Inl AttributeError)"
  by (simp add: send_def write_port_def await_ack_not_serial)

lemma send_mock_class: "kind s = MockSerialPort_class \<Longrightarrow> send s c = Some (Inl TypeError)"
  by (simp add: send_def write_port_def)

lemma not_decisive_empty: "\<not> decisive []"
  by (simp add: decisive_def strip_def lower_def)

text \<open>
  Claim C4, as the code has it: over the real transport the acknowledgment wait of
  \<^verbatim>\<open>send\<close> returns if and only if some line that the transport yields holds "ok",
  "error" or "alarm" (whatever the case of the letters). There is no timeout: over a
  transport that yields no such line the loop does not return.
\<close>

theorem send_returns_iff_decisive:
  "kind s = SerialPort \<Longrightarrow> (send s c \<noteq> None) = (\<exists>n. decisive (rx s !! n))"
proof -
  assume k: "kind s = SerialPort"
  let ?s = "s\<lparr>tx := tx s @ [c]\<rparr>"
  have k': "kind ?s = SerialPort" and r: "rx ?s = rx s" using k by simp_all
  show ?thesis
    using await_ack_returns_decisive[of ?s] await_ack_decisive_returns[OF k'] k' r
    by (auto simp: send_serial[OF k])
qed

theorem send_returns_iff_decisive_witness:
  "kind \<lparr>kind = SerialPort, rx = sconst ''ok'', tx = []\<rparr> = SerialPort \<and>
   send \<lparr>kind = SerialPort, rx = sconst ''ok'', tx = []\<rparr> PenUp \<noteq> None"
proof -
  let ?s = "\<lparr>kind = SerialPort, rx = sconst ''ok'', tx = []\<rparr>"
  have "decisive (rx ?s !! 0)"
    by (simp add: decisive_def strip_def lower_def lower_char_def isspace_def)
  then have "\<exists>n. decisive (rx ?s !! n)" by blast
  then show ?thesis
    using send_returns_iff_decisive[of ?s PenUp] by simp
qed

text \<open>
  Claim C4 as stated fails: a device that stays silent (every read times out and returns
  the empty string) keeps \<^verbatim>\<open>send\<close> in its loop forever.
\<close>

theorem send_silent_device_never_returns:
  "send \<lparr>kind = SerialPort, rx = sconst [], tx = []\<rparr> (Gcode ''G21'') = None"
proof -
  let ?s = "\<lparr>kind = SerialPort, rx = sconst [], tx = [Gcode ''G21'']\<rparr>"
  have "await_ack ?s = None"
  proof (cases "await_ack ?s")
    case (Some y)
    from await_ack_returns_decisive[OF this] show ?thesis
      by (simp add: not_decisive_empty)
  qed simp
  then show ?thesis by (simp add: send_serial)
qed

subsection \<open>Scaler\<close>

lemma Scaler_init_Inr:
  assumes "Scaler_init minx maxx miny maxy bounds rnd = Inr sc"
  shows "max (maxx - minx) (maxy - miny) \<noteq> 0"
    and "min_x sc = minx" and "min_y sc = miny"
    and "multiplier sc = bounds / max (maxx - minx) (maxy - miny) * smaller_scale sc"
  using assms by (auto simp: Scaler_init_def Let_def split: if_splits)






text \<open>
  The ranges that the theorem above asks of the inner scale and of the offsets are those
  that \<^verbatim>\<open>random.uniform\<close> delivers: they hold whenever the three draws lie in the unit
  interval and \<open>bounds\<close> is not negative.
\<close>

lemma Scaler_init_fields:
  assumes "Scaler_init minx maxx miny maxy bounds rnd = Inr sc"
  shows "smaller_scale sc = uniform 0.25 0.75 (draw_scale rnd)"
    and "offset_x sc = uniform 0 (bounds - (maxx - minx) * multiplier sc) (draw_x rnd)"
    and "offset_y sc = uniform 0 (bounds - (maxy - miny) * multiplier sc) (draw_y rnd)"
  using assms by (auto simp: Scaler_init_def Let_def mult.assoc split: if_splits)

lemma uniform_range:
  assumes "a \<le> b" "0 \<le> r" "r \<le> 1"
  shows "a \<le> uniform a b r" and "uniform a b r \<le> b"
proof -
  have "0 \<le> (b - a) * r" using assms by simp
  then show "a \<le> uniform a b r" by (simp add: uniform_def)
  have "(b - a) * r \<le> (b - a) * 1" using assms by (intro mult_left_mono) simp_all
  then show "uniform a b r \<le> b" by (simp add: uniform_def)
qed

lemma final_size_fits:
  fixes M :: real
  assumes "0 < M" "0 \<le> d" "d \<le> M" "0 \<le> b" "0 \<le> sm" "sm \<le> 1"
  shows "d * (b / M * sm) \<le> b"
proof -
  have "d / M \<le> 1" using assms by simp
  then have "d / M * b \<le> 1 * b" using assms by (intro mult_right_mono) simp_all
  then have "d / M * b * sm \<le> b * 1"
    using assms by (intro mult_mono) simp_all
  then show ?thesis by (simp add: field_simps)
qed

lemma Scaler_init_ranges:
  assumes init: "Scaler_init minx maxx miny maxy bounds rnd = Inr sc"
    and box: "minx \<le> maxx" "miny \<le> maxy"
    and b: "0 \<le> bounds"
    and r: "0 \<le> draw_scale rnd" "draw_scale rnd \<le> 1" "0 \<le> draw_x rnd" "draw_x rnd \<le> 1"
           "0 \<le> draw_y rnd" "draw_y rnd \<le> 1"
  shows "1/4 \<le> smaller_scale sc \<and> smaller_scale sc \<le> 3/4 \<and>
    0 \<le> offset_x sc \<and> offset_x sc \<le> bounds - (maxx - minx) * multiplier sc \<and>
    0 \<le> offset_y sc \<and> offset_y sc \<le> bounds - (maxy - miny) * multiplier sc"
proof -
  let ?M = "max (maxx - minx) (maxy - miny)"
  note f = Scaler_init_Inr[OF init] and g = Scaler_init_fields[OF init]
  have M: "0 < ?M" using f(1) box by auto
  have sm: "1/4 \<le> smaller_scale sc" "smaller_scale sc \<le> 3/4"
    using uniform_range[of "0.25" "0.75" "draw_scale rnd"] r by (simp_all add: g(1))
  then have sm': "0 \<le> smaller_scale sc" "smaller_scale sc \<le> 1" by simp_all
  have wx: "(maxx - minx) * multiplier sc \<le> bounds"
    unfolding f(4) using box by (intro final_size_fits[OF M _ _ b sm']) simp_all
  have wy: "(maxy - miny) * multiplier sc \<le> bounds"
    unfolding f(4) using box by (intro final_size_fits[OF M _ _ b sm']) simp_all
  have ox: "0 \<le> offset_x sc" "offset_x sc \<le> bounds - (maxx - minx) * multiplier sc"
    using uniform_range[of 0 "bounds - (maxx - minx) * multiplier sc" "draw_x rnd"] wx r
    by (simp_all add: g(2))
  have oy: "0 \<le> offset_y sc" "offset_y sc \<le> bounds - (maxy - miny) * multiplier sc"
    using uniform_range[of 0 "bounds - (maxy - miny) * multiplier sc" "draw_y rnd"] wy r
    by (simp_all add: g(3))
  show ?thesis using sm ox oy by simp
qed

subsection \<open>What send leaves unchanged\<close>

lemma await_ack_keeps:
  assumes ret: "await_ack s = Some y"
  shows "\<forall>r s'. y = Inr (r, s') \<longrightarrow> tx s' = tx s \<and> kind s' = kind s"
proof (rule await_ack.raw_induct
    [where P = "\<lambda>s y. \<forall>r s'. y = Inr (r, s') \<longrightarrow> tx s' = tx s \<and> kind s' = kind s", OF _ ret])
  fix f s y
  assume IH: "\<And>x y. f x = Some y \<Longrightarrow> \<forall>r s'. y = Inr (r, s') \<longrightarrow> tx s' = tx x \<and> kind s' = kind x"
    and step: "(case readline s of
        Inl e \<Rightarrow> Some (Inl e)
      | Inr (raw, s') \<Rightarrow>
          (let line = strip raw in
           if contains ''ok'' (lower line) then Some (Inr (Acknowledged, s'))
           else if contains ''error'' (lower line) \<or> contains ''alarm'' (lower line)
                then Some (Inr (DeviceFault line, s'))
           else f s')) = Some y"
  show "\<forall>r s'. y = Inr (r, s') \<longrightarrow> tx s' = tx s \<and> kind s' = kind s"
  proof (cases "kind s = SerialPort")
    case False
    then have "readline s = Inl AttributeError"
      by (cases "kind s") (simp_all add: readline_def)
    with step have "y = Inl AttributeError" by simp
    then show ?thesis by simp
  next
    case True
    let ?s1 = "s\<lparr>rx := stl (rx s)\<rparr>"
    let ?l = "lower (strip (shd (rx s)))"
    from True step have st: "(if contains ''ok'' ?l then Some (Inr (Acknowledged, ?s1))
           else if contains ''error'' ?l \<or> contains ''alarm'' ?l
                then Some (Inr (DeviceFault (strip (shd (rx s))), ?s1))
           else f ?s1) = Some y"
      by (simp add: readline_serial Let_def)
    show ?thesis
    proof (cases "contains ''ok'' ?l")
      case True
      with st have "y = Inr (Acknowledged, ?s1)" by simp
      then show ?thesis by simp
    next
      case nok: False
      show ?thesis
      proof (cases "contains ''error'' ?l \<or> contains ''alarm'' ?l")
        case True
        with nok st have "y = Inr (DeviceFault (strip (shd (rx s))), ?s1)" by simp
        then show ?thesis by simp
      next
        case False
        with nok st have "f ?s1 = Some y" by simp
        have e: "tx ?s1 = tx s" "kind ?s1 = kind s" by simp_all
        from IH[OF \<open>f ?s1 = Some y\<close>] show ?thesis unfolding e .
      qed
    qed
  qed
qed

lemma send_keeps:
  assumes "send s c = Some (Inr (r, s'))"
  shows "tx s' = tx s @ [c] \<and> kind s' = kind s"
proof (cases "kind s")
  case SerialPort
  with assms have "await_ack (s\<lparr>tx := tx s @ [c]\<rparr>) = Some (Inr (r, s'))"
    by (simp add: send_serial)
  from await_ack_keeps[OF this] show ?thesis by simp
next
  case MockSerialPort_instance
  with assms show ?thesis by (simp add: send_mock_instance)
next
  case MockSerialPort_class
  with assms show ?thesis by (simp add: send_mock_class)
qed

subsection \<open>plot\_drawing writes the commands of the drawing\<close>

lemma bind_run_simps [simp]:
  "bind_run None f = None"
  "bind_run (Some (Inl e)) f = Some (Inl e)"
  "bind_run (Some (Inr v)) f = f v"
  by (simp_all add: bind_run_def)

lemma bind_run_Inr:
  assumes "bind_run m f = Some (Inr v)"
  obtains u where "m = Some (Inr u)" and "f u = Some (Inr v)"
proof (cases m)
  case None
  with assms show ?thesis by simp
next
  case (Some a)
  with assms that show ?thesis by (cases a) simp_all
qed

lemma bind_send_Inr:
  assumes "bind_run (send s c) (\<lambda>(r, s'). f s') = Some (Inr v)"
  obtains s1 where "f s1 = Some (Inr v)" and "tx s1 = tx s @ [c]" and "kind s1 = kind s"
proof -
  from assms obtain u where u: "send s c = Some (Inr u)"
    and f: "(case u of (r, s') \<Rightarrow> f s') = Some (Inr v)"
    by (rule bind_run_Inr)
  obtain r s1 where [simp]: "u = (r, s1)" by (cases u)
  from f have "f s1 = Some (Inr v)" by simp
  moreover from send_keeps[of s c r s1] u have "tx s1 = tx s @ [c]" "kind s1 = kind s" by simp_all
  ultimately show ?thesis by (rule that)
qed

lemma segments_loop_tx:
  "segments_loop sc xs ys ts s idx = Some (Inr s') \<Longrightarrow>
   tx s' = tx s @ segment_cmds sc xs ys ts idx \<and> kind s' = kind s"
proof (induction idx arbitrary: s)
  case Nil
  then show ?case by (simp add: segment_cmds_def)
next
  case (Cons i rest)
  show ?case
  proof (cases "feed_move sc xs ys ts i")
    case (Inl e)
    with Cons.prems show ?thesis by simp
  next
    case (Inr oc)
    show ?thesis
    proof (cases oc)
      case None
      with Inr Cons.prems have "segments_loop sc xs ys ts s rest = Some (Inr s')" by simp
      from Cons.IH[OF this] Inr None show ?thesis by (simp add: segment_cmds_def)
    next
      case (Some c)
      with Inr Cons.prems
      have "bind_run (send s c) (\<lambda>(r, s1). segments_loop sc xs ys ts s1 rest) = Some (Inr s')"
        by simp
      then obtain s1 where rest: "segments_loop sc xs ys ts s1 rest = Some (Inr s')"
        and k: "tx s1 = tx s @ [c]" "kind s1 = kind s"
        by (rule bind_send_Inr)
      from Cons.IH[OF rest] k Inr Some show ?thesis by (simp add: segment_cmds_def)
    qed
  qed
qed

lemma plot_stroke_tx:
  assumes "plot_stroke sc s st = Some (Inr s')"
  shows "tx s' = tx s @ stroke_cmds sc st \<and> kind s' = kind s"
proof -
  obtain xs ys ts where st: "st = (xs, ys, ts)" by (cases st)
  obtain sx sy where sxy: "scale sc (xs ! 0) (ys ! 0) = (sx, sy)"
    by (cases "scale sc (xs ! 0) (ys ! 0)")
  let ?k3 = "\<lambda>s3. segments_loop sc xs ys ts s3 [1..<length xs]"
  let ?k2 = "\<lambda>s2. bind_run (send s2 PenDown) (\<lambda>(r3, s3). ?k3 s3)"
  let ?k1 = "\<lambda>s1. if xs = [] \<or> ys = [] then Some (Inl IndexError)
       else bind_run (send s1 (RapidMove sx sy)) (\<lambda>(r2, s2). ?k2 s2)"
  have "plot_stroke sc s st = bind_run (send s PenUp) (\<lambda>(r1, s1). ?k1 s1)"
    by (simp add: plot_stroke_def st sxy cong: if_cong)
  with assms have "bind_run (send s PenUp) (\<lambda>(r1, s1). ?k1 s1) = Some (Inr s')" by simp
  then obtain s1 where a1: "?k1 s1 = Some (Inr s')"
    and t1: "tx s1 = tx s @ [PenUp]" "kind s1 = kind s"
    by (rule bind_send_Inr)
  from a1 have "bind_run (send s1 (RapidMove sx sy)) (\<lambda>(r2, s2). ?k2 s2) = Some (Inr s')"
    by (simp split: if_splits)
  then obtain s2 where a2: "?k2 s2 = Some (Inr s')"
    and t2: "tx s2 = tx s1 @ [RapidMove sx sy]" "kind s2 = kind s1"
    by (rule bind_send_Inr)
  from a2 obtain s3 where a3: "?k3 s3 = Some (Inr s')"
    and t3: "tx s3 = tx s2 @ [PenDown]" "kind s3 = kind s2"
    by (rule bind_send_Inr)
  from segments_loop_tx[OF a3] t1 t2 t3 sxy
  show ?thesis by (simp add: stroke_cmds_def st)
qed

lemma strokes_loop_tx:
  "strokes_loop sc s sts = Some (Inr s') \<Longrightarrow>
   tx s' = tx s @ concat (map (stroke_cmds sc) sts) \<and> kind s' = kind s"
proof (induction sts arbitrary: s)
  case Nil
  then show ?case by simp
next
  case (Cons st rest)
  from Cons.prems have "bind_run (plot_stroke sc s st) (\<lambda>s1. strokes_loop sc s1 rest) = Some (Inr s')"
    by simp
  then obtain s1 where a: "plot_stroke sc s st = Some (Inr s1)"
    and b: "strokes_loop sc s1 rest = Some (Inr s')"
    by (rule bind_run_Inr)
  from plot_stroke_tx[OF a] Cons.IH[OF b] show ?case by simp
qed

lemma plot_drawing_tx:
  assumes "plot_drawing s d rnd = Some (Inr s')"
  shows "tx s' = tx s @ drawing_cmds d rnd \<and> kind s' = kind s"
proof (cases "bounding_box None (drawing d)")
  case (Inl e)
  with assms show ?thesis by (simp add: plot_drawing_def)
next
  case (Inr bb)
  show ?thesis
  proof (cases bb)
    case None
    with Inr assms have "bind_run (send s PenUp) (\<lambda>(r, s1). Some (Inr s1)) = Some (Inr s')"
      by (simp add: plot_drawing_def)
    then obtain s1 where "(Some (Inr s1) :: transport run) = Some (Inr s')"
      and "tx s1 = tx s @ [PenUp]" "kind s1 = kind s"
      by (rule bind_send_Inr[where f = "\<lambda>s1. Some (Inr s1)"])
    with Inr None show ?thesis by (simp add: drawing_cmds_def)
  next
    case (Some box)
    obtain a b c e where box: "box = (a, b, c, e)" by (cases box)
    show ?thesis
    proof (cases "Scaler_init a b c e BOUNDS rnd")
      case (Inl err)
      with Inr Some box assms show ?thesis by (simp add: plot_drawing_def)
    next
      case sc: (Inr sc)
      with Inr Some box assms
      have "bind_run (strokes_loop sc s (drawing d))
              (\<lambda>s1. bind_run (send s1 PenUp) (\<lambda>(r, s2). Some (Inr s2))) = Some (Inr s')"
        by (simp add: plot_drawing_def)
      then obtain s1 where l: "strokes_loop sc s (drawing d) = Some (Inr s1)"
        and u: "bind_run (send s1 PenUp) (\<lambda>(r, s2). Some (Inr s2)) = Some (Inr s')"
        by (rule bind_run_Inr)
      from u obtain s2 where "(Some (Inr s2) :: transport run) = Some (Inr s')"
        and "tx s2 = tx s1 @ [PenUp]" "kind s2 = kind s1"
        by (rule bind_send_Inr[where f = "\<lambda>s1. Some (Inr s1)"])
      with strokes_loop_tx[OF l] Inr Some box sc
      show ?thesis by (simp add: drawing_cmds_def)
    qed
  qed
qed

subsection \<open>Strokes, the mock port and the precedence of ok\<close>

lemma await_ack_serial_no_raise:
  assumes ret: "await_ack s = Some y"
  shows "kind s = SerialPort \<longrightarrow> (\<forall>e. y \<noteq> Inl e)"
proof (rule await_ack.raw_induct
    [where P = "\<lambda>s y. kind s = SerialPort \<longrightarrow> (\<forall>e. y \<noteq> Inl e)", OF _ ret])
  fix f s y
  assume IH: "\<And>x y. f x = Some y \<Longrightarrow> kind x = SerialPort \<longrightarrow> (\<forall>e. y \<noteq> Inl e)"
    and step: "(case readline s of
        Inl e \<Rightarrow> Some (Inl e)
      | Inr (raw, s') \<Rightarrow>
          (let line = strip raw in
           if contains ''ok'' (lower line) then Some (Inr (Acknowledged, s'))
           else if contains ''error'' (lower line) \<or> contains ''alarm'' (lower line)
                then Some (Inr (DeviceFault line, s'))
           else f s')) = Some y"
  show "kind s = SerialPort \<longrightarrow> (\<forall>e. y \<noteq> Inl e)"
  proof
    assume k: "kind s = SerialPort"
    let ?s1 = "s\<lparr>rx := stl (rx s)\<rparr>"
    let ?l = "lower (strip (shd (rx s)))"
    from k step have st: "(if contains ''ok'' ?l then Some (Inr (Acknowledged, ?s1))
           else if contains ''error'' ?l \<or> contains ''alarm'' ?l
                then Some (Inr (DeviceFault (strip (shd (rx s))), ?s1))
           else f ?s1) = Some y"
      by (simp add: readline_serial Let_def)
    show "\<forall>e. y \<noteq> Inl e"
    proof (cases "contains ''ok'' ?l")
      case True
      with st have "y = Inr (Acknowledged, ?s1)" by simp
      then show ?thesis by simp
    next
      case nok: False
      show ?thesis
      proof (cases "contains ''error'' ?l \<or> contains ''alarm'' ?l")
        case True
        with nok st have "y = Inr (DeviceFault (strip (shd (rx s))), ?s1)" by simp
        then show ?thesis by simp
      next
        case False
        with nok st have "f ?s1 = Some y" by simp
        from IH[OF this] k show ?thesis by simp
      qed
    qed
  qed
qed

lemma send_serial_no_raise: "kind s = SerialPort \<Longrightarrow> send s c \<noteq> Some (Inl e)"
proof
  assume k: "kind s = SerialPort" and "send s c = Some (Inl e)"
  then have "await_ack (s\<lparr>tx := tx s @ [c]\<rparr>) = Some (Inl e)" by (simp add: send_serial)
  from await_ack_serial_no_raise[OF this] k show False by simp
qed

lemma send_all_serial_no_raise:
  "kind s = SerialPort \<Longrightarrow> send_all s cs \<noteq> Some (Inl e)"
proof (induction cs arbitrary: s)
  case Nil
  then show ?case by simp
next
  case (Cons c cs)
  show ?case
  proof (cases "send s c")
    case None
    then show ?thesis by simp
  next
    case (Some a)
    show ?thesis
    proof (cases a)
      case (Inl e')
      with Some send_serial_no_raise[OF Cons.prems, of c e'] show ?thesis by simp
    next
      case (Inr u)
      obtain r s1 where u: "u = (r, s1)" by (cases u)
      from send_keeps[of s c r s1] Some Inr u Cons.prems have "kind s1 = SerialPort" by simp
      from Cons.IH[OF this] Some Inr u show ?thesis by simp
    qed
  qed
qed

lemma send_all_tx:
  "send_all s cs = Some (Inr s') \<Longrightarrow> tx s' = tx s @ cs \<and> kind s' = kind s"
proof (induction cs arbitrary: s)
  case Nil
  then show ?case by simp
next
  case (Cons c cs)
  from Cons.prems have "bind_run (send s c) (\<lambda>(r, s1). send_all s1 cs) = Some (Inr s')" by simp
  then obtain s1 where a: "send_all s1 cs = Some (Inr s')"
    and k: "tx s1 = tx s @ [c]" "kind s1 = kind s"
    by (rule bind_send_Inr)
  from Cons.IH[OF a] k show ?case by simp
qed

lemma plot_stroke_single:
  "plot_stroke sc s ([x], [y], ts) =
     send_all s [PenUp, RapidMove (fst (scale sc x y)) (snd (scale sc x y)), PenDown]"
  by (simp add: plot_stroke_def case_prod_beta bind_run_def split: option.splits sum.splits)

text \<open>
  Claim C9: a stroke of a single sample is plotted by sending exactly pen-up, the rapid
  move to the scaled first point and pen-down, in this order, and nothing else; the
  synthesis raises no exception (over a serial port no exception at all), whatever the
  list of timestamps is.
\<close>

theorem single_sample_stroke:
  "plot_stroke sc s ([x], [y], ts) =
     send_all s [PenUp, RapidMove (fst (scale sc x y)) (snd (scale sc x y)), PenDown] \<and>
   (kind s = SerialPort \<longrightarrow> plot_stroke sc s ([x], [y], ts) \<noteq> Some (Inl e)) \<and>
   (plot_stroke sc s ([x], [y], ts) = Some (Inr s') \<longrightarrow>
      tx s' = tx s @ [PenUp, RapidMove (fst (scale sc x y)) (snd (scale sc x y)), PenDown])"
  using send_all_serial_no_raise[of s _ e] send_all_tx[of s _ s']
  by (simp only: plot_stroke_single) blast

text \<open>
  Claim C1 fails on the code: for a bounding box with zero range on both axes the
  constructor divides by \<^verbatim>\<open>max(0, 0)\<close>, and \<^verbatim>\<open>plot_drawing\<close> of a drawing that is
  a single point raises \<^verbatim>\<open>ZeroDivisionError\<close> before anything is sent.
\<close>

theorem zero_range_raises_ZeroDivisionError:
  "Scaler_init x x y y bounds rnd = Inl ZeroDivisionError \<and>
   plot_drawing s \<lparr>word = w, drawing = [([x], [y], [t])]\<rparr> rnd = Some (Inl ZeroDivisionError)"
  by (simp add: Scaler_init_def plot_drawing_def)

lemma send_all_mock_instance:
  "kind s = MockSerialPort_instance \<Longrightarrow> send_all s (c # cs) = Some (Inl AttributeError)"
  by (simp add: send_mock_instance)

text \<open>
  Claim C2 fails on the code: for an instance of \<^verbatim>\<open>MockSerialPort\<close> the test
  \<^verbatim>\<open>s is not MockSerialPort\<close> is true, so \<^verbatim>\<open>send\<close> enters the acknowledgment loop
  and calls \<^verbatim>\<open>s.readline()\<close>, which the mock does not have: the first \<^verbatim>\<open>send\<close> of
  \<^verbatim>\<open>main\<close> raises \<^verbatim>\<open>AttributeError\<close> and the run ends there.
\<close>

theorem mock_port_send_raises:
  "send \<lparr>kind = MockSerialPort_instance, rx = r, tx = t\<rparr> c = Some (Inl AttributeError) \<and>
   main False replies lines rnd = Some (Inl AttributeError)"
  by (simp add: send_mock_instance main_def send_all_mock_instance del: send_all.simps)

text \<open>
  Claim C10: in the acknowledgment wait the test for "ok" comes first. A line that
  holds "ok" is an acknowledgment, also when it holds "error" or "alarm" as well.
\<close>

theorem ok_takes_precedence:
  "kind s = SerialPort \<Longrightarrow> contains ''ok'' (lower (strip (shd (rx s)))) \<Longrightarrow>
   send s c = Some (Inr (Acknowledged, s\<lparr>tx := tx s @ [c], rx := stl (rx s)\<rparr>))"
  by (simp add: send_serial await_ack_ok)

lemmas str_eval = lower_def strip_def lower_char_def isspace_def

theorem ok_takes_precedence_witness:
  "kind \<lparr>kind = SerialPort, rx = ''ALARM ok'' ## sconst [], tx = []\<rparr> = SerialPort \<and>
   contains ''ok'' (lower (strip ''ALARM ok'')) \<and> contains ''alarm'' (lower (strip ''ALARM ok'')) \<and>
   send \<lparr>kind = SerialPort, rx = ''ALARM ok'' ## sconst [], tx = []\<rparr> (Gcode ''G21'') =
     Some (Inr (Acknowledged, \<lparr>kind = SerialPort, rx = sconst [], tx = [Gcode ''G21'']\<rparr>))"
proof -
  have c: "contains ''ok'' (lower (strip ''ALARM ok''))" "contains ''alarm'' (lower (strip ''ALARM ok''))"
    by (simp_all add: str_eval)
  show ?thesis
    using ok_takes_precedence[of "\<lparr>kind = SerialPort, rx = ''ALARM ok'' ## sconst [], tx = []\<rparr>" "Gcode ''G21''"] c
    by simp
qed

subsection \<open>Segments and feed rates\<close>

lemma feed_move_eq:
  assumes "i < length xs" "i < length ys" "i < length ts"
  shows "feed_move sc xs ys ts i =
     (if ts ! i - ts ! (i - 1) \<le> 0 \<or> segment_velocity sc xs ys ts i \<le> 0 then Inr None
      else Inr (Some (FeedMove (fst (scale sc (xs ! i) (ys ! i))) (snd (scale sc (xs ! i) (ys ! i)))
                        (min (segment_velocity sc xs ys ts i * SPEED_MULTIPLIER) 11500))))"
  using assms
  by (simp add: feed_move_def segment_velocity_def Let_def case_prod_beta)

lemma feed_move_skip_delta:
  "i < length ts \<Longrightarrow> ts ! i - ts ! (i - 1) \<le> 0 \<Longrightarrow> feed_move sc xs ys ts i = Inr None"
  by (simp add: feed_move_def Let_def)

lemma feed_move_Some:
  assumes "feed_move sc xs ys ts i = Inr (Some c)"
  shows "i < length xs \<and> i < length ys \<and> i < length ts \<and> 0 < ts ! i - ts ! (i - 1) \<and>
         0 < segment_velocity sc xs ys ts i \<and>
         c = FeedMove (fst (scale sc (xs ! i) (ys ! i))) (snd (scale sc (xs ! i) (ys ! i)))
               (min (segment_velocity sc xs ys ts i * SPEED_MULTIPLIER) 11500)"
proof -
  from assms have a: "i < length ts" by (simp add: feed_move_def split: if_splits)
  from assms a have d: "0 < ts ! i - ts ! (i - 1)"
    by (simp add: feed_move_def Let_def split: if_splits)
  from assms a d have b: "i < length xs" "i < length ys"
    by (simp_all add: feed_move_def Let_def split: if_splits)
  from feed_move_eq[OF b a, of sc] assms show ?thesis
    using a b d by (simp split: if_splits)
qed

lemma segments_loop_no_cmd:
  assumes "\<forall>i \<in> set idx. feed_move sc xs ys ts i = Inr None"
  shows "segments_loop sc xs ys ts s idx = Some (Inr s)"
  using assms by (induction idx) simp_all

lemma plot_stroke_eq:
  assumes "xs \<noteq> []" "ys \<noteq> []"
  shows "plot_stroke sc s (xs, ys, ts) =
     bind_run (send_all s [PenUp, RapidMove (fst (scale sc (xs ! 0) (ys ! 0)))
                                            (snd (scale sc (xs ! 0) (ys ! 0))), PenDown])
       (\<lambda>s3. segments_loop sc xs ys ts s3 [1..<length xs])"
  using assms
  by (simp add: plot_stroke_def case_prod_beta bind_run_def split: option.splits sum.splits)

text \<open>
  Claim C7: a segment whose timestamp delta is not positive, or whose velocity is not
  positive, sends no command and raises nothing, and the loop goes on with the next
  segment; a stroke whose timestamps never increase is plotted by pen-up, rapid move and
  pen-down alone.
\<close>

theorem skipped_segments_emit_nothing:
  assumes "i < length xs" "i < length ys" "i < length ts"
    and "ts ! i - ts ! (i - 1) \<le> 0 \<or> segment_velocity sc xs ys ts i \<le> 0"
  shows "feed_move sc xs ys ts i = Inr None \<and>
         segments_loop sc xs ys ts s (i # rest) = segments_loop sc xs ys ts s rest \<and>
         (length xs = length ts \<and> (\<forall>j. 0 < j \<and> j < length ts \<longrightarrow> ts ! j \<le> ts ! (j - 1)) \<longrightarrow>
            plot_stroke sc s (xs, ys, ts) =
              send_all s [PenUp, RapidMove (fst (scale sc (xs ! 0) (ys ! 0)))
                                           (snd (scale sc (xs ! 0) (ys ! 0))), PenDown])"
proof -
  have skip: "feed_move sc xs ys ts i = Inr None"
    using assms by (simp add: feed_move_eq)
  have whole: "plot_stroke sc s (xs, ys, ts) =
      send_all s [PenUp, RapidMove (fst (scale sc (xs ! 0) (ys ! 0)))
                                   (snd (scale sc (xs ! 0) (ys ! 0))), PenDown]"
    if len: "length xs = length ts" and mono: "\<forall>j. 0 < j \<and> j < length ts \<longrightarrow> ts ! j \<le> ts ! (j - 1)"
  proof -
    have ne: "xs \<noteq> []" "ys \<noteq> []" using assms by auto
    have "\<forall>j \<in> set [1..<length xs]. feed_move sc xs ys ts j = Inr None"
      using len mono by (auto intro!: feed_move_skip_delta)
    then have loop: "\<And>s3. segments_loop sc xs ys ts s3 [1..<length xs] = Some (Inr s3)"
      by (rule segments_loop_no_cmd)
    let ?m = "send_all s [PenUp, RapidMove (fst (scale sc (xs ! 0) (ys ! 0)))
                                   (snd (scale sc (xs ! 0) (ys ! 0))), PenDown]"
    have "plot_stroke sc s (xs, ys, ts) = bind_run ?m (\<lambda>s3. Some (Inr s3))"
      by (simp only: plot_stroke_eq[OF ne] loop)
    also have "\<dots> = ?m"
      by (cases ?m) (auto simp: bind_run_def split: sum.splits)
    finally show ?thesis .
  qed
  show ?thesis using skip whole by simp
qed

lemma segment_cmds_mem:
  assumes "c \<in> set (segment_cmds sc xs ys ts idx)"
  shows "\<exists>i \<in> set idx. feed_move sc xs ys ts i = Inr (Some c)"
  using assms
  by (auto simp: segment_cmds_def split: sum.splits option.splits)

lemma stroke_cmds_FeedMove:
  assumes "FeedMove x y f \<in> set (stroke_cmds sc (xs, ys, ts))"
  shows "\<exists>i. 0 < i \<and> i < length xs \<and> feed_move sc xs ys ts i = Inr (Some (FeedMove x y f))"
proof -
  from assms have "FeedMove x y f \<in> set (segment_cmds sc xs ys ts [1..<length xs])"
    by (simp add: stroke_cmds_def)
  from segment_cmds_mem[OF this] obtain i where "i \<in> set [1..<length xs]"
    and "feed_move sc xs ys ts i = Inr (Some (FeedMove x y f))" by blast
  moreover from this(1) have "0 < i" "i < length xs" by simp_all
  ultimately show ?thesis by blast
qed

lemma drawing_cmds_FeedMove:
  assumes "FeedMove x y f \<in> set (drawing_cmds d rnd)"
  shows "\<exists>minx maxx miny maxy sc xs ys ts i.
           bounding_box None (drawing d) = Inr (Some (minx, maxx, miny, maxy)) \<and>
           Scaler_init minx maxx miny maxy BOUNDS rnd = Inr sc \<and>
           (xs, ys, ts) \<in> set (drawing d) \<and> 0 < i \<and> i < length xs \<and>
           feed_move sc xs ys ts i = Inr (Some (FeedMove x y f))"
proof (cases "bounding_box None (drawing d)")
  case (Inl e)
  with assms show ?thesis by (simp add: drawing_cmds_def)
next
  case (Inr bb)
  show ?thesis
  proof (cases bb)
    case None
    with Inr assms show ?thesis by (simp add: drawing_cmds_def)
  next
    case (Some box)
    obtain a b c e where box: "box = (a, b, c, e)" by (cases box)
    show ?thesis
    proof (cases "Scaler_init a b c e BOUNDS rnd")
      case (Inl err)
      with Inr Some box assms show ?thesis by (simp add: drawing_cmds_def)
    next
      case sc: (Inr sc)
      with Inr Some box assms obtain st where st: "st \<in> set (drawing d)"
        and m: "FeedMove x y f \<in> set (stroke_cmds sc st)"
        by (auto simp: drawing_cmds_def)
      obtain xs ys ts where [simp]: "st = (xs, ys, ts)" by (cases st)
      from stroke_cmds_FeedMove[OF m[simplified]] obtain i where
        "0 < i" "i < length xs" "feed_move sc xs ys ts i = Inr (Some (FeedMove x y f))" by blast
      with Inr Some box sc st show ?thesis by auto
    qed
  qed
qed

text \<open>
  Claim C8: every feed move that \<^verbatim>\<open>plot_drawing\<close> writes belongs to a segment \<open>i\<close> of
  a stroke of the drawing, goes to the scaled point \<open>i\<close> and carries the feed rate
  \<open>min (velocity * SPEED_MULTIPLIER) 11500\<close>, the velocity being the distance between the
  two scaled points divided by the delay in seconds; so no feed rate exceeds 11500.
\<close>

theorem feed_rate_clamped:
  assumes "plot_drawing s d rnd = Some (Inr s')"
    and "FeedMove x y f \<in> set (drop (length (tx s)) (tx s'))"
  shows "f \<le> 11500 \<and>
     (\<exists>minx maxx miny maxy sc xs ys ts i.
         bounding_box None (drawing d) = Inr (Some (minx, maxx, miny, maxy)) \<and>
         Scaler_init minx maxx miny maxy BOUNDS rnd = Inr sc \<and>
         (xs, ys, ts) \<in> set (drawing d) \<and> 0 < i \<and> i < length xs \<and>
         (x, y) = scale sc (xs ! i) (ys ! i) \<and>
         f = min (segment_velocity sc xs ys ts i * SPEED_MULTIPLIER) 11500)"
proof -
  from plot_drawing_tx[OF assms(1)] assms(2)
  have "FeedMove x y f \<in> set (drawing_cmds d rnd)" by simp
  from drawing_cmds_FeedMove[OF this] obtain minx maxx miny maxy sc xs ys ts i where
    bb: "bounding_box None (drawing d) = Inr (Some (minx, maxx, miny, maxy))" and
    sc: "Scaler_init minx maxx miny maxy BOUNDS rnd = Inr sc" and
    st: "(xs, ys, ts) \<in> set (drawing d)" and i: "0 < i" "i < length xs" and
    fm: "feed_move sc xs ys ts i = Inr (Some (FeedMove x y f))"
    by blast
  from feed_move_Some[OF fm] have
    xy: "(x, y) = scale sc (xs ! i) (ys ! i)" and
    f: "f = min (segment_velocity sc xs ys ts i * SPEED_MULTIPLIER) 11500"
    by simp_all
  from f have "f \<le> 11500" by simp
  with bb sc st i xy f show ?thesis by blast
qed

subsection \<open>Runs on concrete devices\<close>

lemma send_ok:
  "kind s = SerialPort \<Longrightarrow> contains ''ok'' (lower (strip (shd (rx s)))) \<Longrightarrow>
   send s c = Some (Inr (Acknowledged, s\<lparr>tx := tx s @ [c], rx := stl (rx s)\<rparr>))"
  by (simp add: send_serial await_ack_ok)


lemma ok_line: "contains ''ok'' (lower (strip ''ok''))"
  by (simp add: str_eval)


lemma send_acking:
  "send \<lparr>kind = SerialPort, rx = sconst ''ok'', tx = t\<rparr> c =
     Some (Inr (Acknowledged, \<lparr>kind = SerialPort, rx = sconst ''ok'', tx = t @ [c]\<rparr>))"
  using send_ok[of "\<lparr>kind = SerialPort, rx = sconst ''ok'', tx = t\<rparr>" c] ok_line
  by simp

lemma send_all_acking:
  "send_all \<lparr>kind = SerialPort, rx = sconst ''ok'', tx = t\<rparr> cs =
     Some (Inr \<lparr>kind = SerialPort, rx = sconst ''ok'', tx = t @ cs\<rparr>)"
  by (induction cs arbitrary: t) (simp_all add: send_acking)

lemma sqrt_15625: "sqrt 15625 = 125"
  by (rule real_sqrt_unique) simp_all

lemma upt_1_2: "[1..<Suc (Suc 0)] = [Suc 0]"
  by (simp add: upt_rec)

theorem single_sample_stroke_witness:
  "kind \<lparr>kind = SerialPort, rx = sconst ''ok'', tx = []\<rparr> = SerialPort \<and>
   plot_stroke \<lparr>smaller_scale = 1/2, offset_x = 0, offset_y = 0, min_x = 0, min_y = 0,
                 multiplier = 25/2\<rparr>
     \<lparr>kind = SerialPort, rx = sconst ''ok'', tx = []\<rparr> ([3], [4], [0]) =
     Some (Inr \<lparr>kind = SerialPort, rx = sconst ''ok'',
                tx = [PenUp, RapidMove (85/2) (-55), PenDown]\<rparr>) \<and>
   plot_stroke \<lparr>smaller_scale = 1/2, offset_x = 0, offset_y = 0, min_x = 0, min_y = 0,
                 multiplier = 25/2\<rparr>
     \<lparr>kind = SerialPort, rx = sconst ''ok'', tx = []\<rparr> ([3], [4], [0]) \<noteq> Some (Inl IndexError)"
  using single_sample_stroke[of
      "\<lparr>smaller_scale = 1/2, offset_x = 0, offset_y = 0, min_x = 0, min_y = 0, multiplier = 25/2\<rparr>"
      "\<lparr>kind = SerialPort, rx = sconst ''ok'', tx = []\<rparr>" 3 4 "[0]" IndexError
      "\<lparr>kind = SerialPort, rx = sconst ''ok'', tx = [PenUp, RapidMove (85/2) (-55), PenDown]\<rparr>"]
  by (simp add: send_acking scale_def)

theorem skipped_segments_emit_nothing_witness:
  "(1::nat) < length [0, 10 :: real] \<and> (1::nat) < length [0, 0 :: real] \<and>
   (1::nat) < length [100, 100 :: real] \<and> [100, 100 :: real] ! 1 - [100, 100] ! (1 - 1) \<le> 0 \<and>
   feed_move \<lparr>smaller_scale = 1/2, offset_x = 0, offset_y = 0, min_x = 0, min_y = 0,
               multiplier = 25/2\<rparr> [0, 10] [0, 0] [100, 100] 1 = Inr None \<and>
   plot_stroke \<lparr>smaller_scale = 1/2, offset_x = 0, offset_y = 0, min_x = 0, min_y = 0,
                 multiplier = 25/2\<rparr>
     \<lparr>kind = SerialPort, rx = sconst ''ok'', tx = []\<rparr> ([0, 10], [0, 0], [100, 100]) =
     Some (Inr \<lparr>kind = SerialPort, rx = sconst ''ok'', tx = [PenUp, RapidMove 5 (-5), PenDown]\<rparr>)"
proof -
  have h: "(1::nat) < length [0, 10 :: real]" "(1::nat) < length [0, 0 :: real]"
    "(1::nat) < length [100, 100 :: real]"
    "[100, 100 :: real] ! 1 - [100, 100] ! (1 - 1) \<le> 0 \<or>
     segment_velocity \<lparr>smaller_scale = 1/2, offset_x = 0, offset_y = 0, min_x = 0, min_y = 0,
               multiplier = 25/2\<rparr> [0, 10] [0, 0] [100, 100] 1 \<le> 0"
    by simp_all
  have m: "\<forall>j. 0 < j \<and> j < length [100, 100 :: real] \<longrightarrow> [100, 100 :: real] ! j \<le> [100, 100] ! (j - 1)"
    by (auto simp: less_Suc_eq)
  from skipped_segments_emit_nothing[OF h, of "\<lparr>kind = SerialPort, rx = sconst ''ok'', tx = []\<rparr>" "[]"] m
  show ?thesis
    by (simp add: send_acking scale_def)
qed

lemma Scaler_init_example:
  "Scaler_init 0 10 0 0 BOUNDS \<lparr>draw_scale = 1/2, draw_x = 0, draw_y = 0\<rparr> =
     Inr \<lparr>smaller_scale = 1/2, offset_x = 0, offset_y = 0, min_x = 0, min_y = 0, multiplier = 25/2\<rparr>"
  by (simp add: Scaler_init_def uniform_def BOUNDS_def)

lemma feed_move_example_slow:
  "feed_move \<lparr>smaller_scale = 1/2, offset_x = 0, offset_y = 0, min_x = 0, min_y = 0,
               multiplier = 25/2\<rparr> [0, 10] [0, 0] [0, 1000] (Suc 0) =
     Inr (Some (FeedMove 130 (-5) 2500))"
  by (simp add: feed_move_def scale_def SPEED_MULTIPLIER_def sqrt_15625)

lemma feed_move_example_fast:
  "feed_move \<lparr>smaller_scale = 1/2, offset_x = 0, offset_y = 0, min_x = 0, min_y = 0,
               multiplier = 25/2\<rparr> [0, 10] [0, 0] [0, 100] (Suc 0) =
     Inr (Some (FeedMove 130 (-5) 11500))"
  by (simp add: feed_move_def scale_def SPEED_MULTIPLIER_def sqrt_15625)

lemma plot_drawing_example_slow:
  "plot_drawing \<lparr>kind = SerialPort, rx = sconst ''ok'', tx = []\<rparr>
     \<lparr>word = ''line'', drawing = [([0, 10], [0, 0], [0, 1000])]\<rparr>
     \<lparr>draw_scale = 1/2, draw_x = 0, draw_y = 0\<rparr> =
   Some (Inr \<lparr>kind = SerialPort, rx = sconst ''ok'',
              tx = [PenUp, RapidMove 5 (-5), PenDown, FeedMove 130 (-5) 2500, PenUp]\<rparr>)"
  by (simp add: plot_drawing_def Scaler_init_example plot_stroke_def send_acking scale_def
      upt_1_2 feed_move_example_slow)

theorem feed_rate_clamped_witness:
  "plot_drawing \<lparr>kind = SerialPort, rx = sconst ''ok'', tx = []\<rparr>
     \<lparr>word = ''line'', drawing = [([0, 10], [0, 0], [0, 1000])]\<rparr>
     \<lparr>draw_scale = 1/2, draw_x = 0, draw_y = 0\<rparr> =
   Some (Inr \<lparr>kind = SerialPort, rx = sconst ''ok'',
              tx = [PenUp, RapidMove 5 (-5), PenDown, FeedMove 130 (-5) 2500, PenUp]\<rparr>) \<and>
   FeedMove 130 (-5) 2500 \<in> set (drop (length (tx \<lparr>kind = SerialPort, rx = sconst ''ok'', tx = []\<rparr>))
     (tx \<lparr>kind = SerialPort, rx = sconst ''ok'',
          tx = [PenUp, RapidMove 5 (-5), PenDown, FeedMove 130 (-5) 2500, PenUp]\<rparr>)) \<and>
   (2500 :: real) \<le> 11500"
proof -
  have m: "FeedMove 130 (-5) 2500 \<in> set (drop (length (tx \<lparr>kind = SerialPort, rx = sconst ''ok'', tx = []\<rparr>))
     (tx \<lparr>kind = SerialPort, rx = sconst ''ok'',
          tx = [PenUp, RapidMove 5 (-5), PenDown, FeedMove 130 (-5) 2500, PenUp]\<rparr>))"
    by simp
  from feed_rate_clamped[OF plot_drawing_example_slow m] plot_drawing_example_slow m
  show ?thesis by blast
qed


subsection \<open>The driver\<close>

lemma bind_run_return: "bind_run m (\<lambda>v. Some (Inr v)) = m"
  by (simp add: bind_run_def split: option.splits sum.splits)

lemma lines_loop_plot_all:
  "lines_loop rnd limit count s lines =
     plot_all rnd count s (take (nat (limit - int count)) (drawings_of lines))"
proof (induction lines arbitrary: count s)
  case Nil
  then show ?case by (simp add: drawings_of_def)
next
  case (Cons line rest)
  show ?case
  proof (cases "int count < limit")
    case False
    then have "nat (limit - int count) = 0" by simp
    with False show ?thesis by simp
  next
    case lt: True
    show ?thesis
    proof (cases line)
      case None
      with lt Cons.IH[of count s] show ?thesis by (simp add: drawings_of_def)
    next
      case (Some d)
      from lt have n: "nat (limit - int count) = Suc (nat (limit - int (count + 1)))" by simp
      have "lines_loop rnd limit count s (line # rest) =
          bind_run (plot_drawing s d (rnd count)) (\<lambda>s'. lines_loop rnd limit (count + 1) s' rest)"
        using lt Some by simp
      also have "\<dots> = bind_run (plot_drawing s d (rnd count))
          (\<lambda>s'. plot_all rnd (count + 1) s' (take (nat (limit - int (count + 1))) (drawings_of rest)))"
        by (simp only: Cons.IH)
      also have "\<dots> = plot_all rnd count s (take (nat (limit - int count)) (drawings_of (line # rest)))"
        unfolding n using Some by (simp add: drawings_of_def)
      finally show ?thesis .
    qed
  qed
qed

text \<open>
  Claim C6: \<^verbatim>\<open>stream_and_plot\<close> does what plotting, one after the other and in
  the order of arrival, the first \<open>limit\<close> drawings of the source does (the empty lines
  of the stream are no drawings); for a limit that is not negative these are
  \<open>min limit n\<close> drawings, \<open>n\<close> being the number of drawings the source yields. With
  limit 1 and three drawings it plots the first and stops.
\<close>

theorem driver_plots_first_limit_drawings:
  "stream_and_plot s lines limit rnd = plot_all rnd 0 s (take (nat limit) (drawings_of lines)) \<and>
   (0 \<le> limit \<longrightarrow>
      int (length (take (nat limit) (drawings_of lines))) = min limit (int (length (drawings_of lines)))) \<and>
   stream_and_plot s [Some d1, Some d2, Some d3] 1 rnd = plot_drawing s d1 (rnd 0)"
proof -
  have a: "\<And>ls. stream_and_plot s ls limit rnd = plot_all rnd 0 s (take (nat limit) (drawings_of ls))"
    by (simp add: stream_and_plot_def lines_loop_plot_all)
  have b: "stream_and_plot s [Some d1, Some d2, Some d3] 1 rnd = plot_drawing s d1 (rnd 0)"
    by (simp add: stream_and_plot_def lines_loop_plot_all drawings_of_def bind_run_return)
  show ?thesis using a b by auto
qed

theorem driver_plots_first_limit_drawings_witness:
  "(0::int) \<le> 1 \<and>
   stream_and_plot \<lparr>kind = SerialPort, rx = sconst ''ok'', tx = []\<rparr>
     [None,
      Some \<lparr>word = ''line'', drawing = [([0, 10], [0, 0], [0, 1000])]\<rparr>,
      Some \<lparr>word = ''dot'', drawing = [([3], [4], [0])]\<rparr>]
     1 (\<lambda>k. \<lparr>draw_scale = 1/2, draw_x = 0, draw_y = 0\<rparr>) =
   Some (Inr \<lparr>kind = SerialPort, rx = sconst ''ok'',
              tx = [PenUp, RapidMove 5 (-5), PenDown, FeedMove 130 (-5) 2500, PenUp]\<rparr>) \<and>
   int (length (take (nat 1) (drawings_of
     [None,
      Some \<lparr>word = ''line'', drawing = [([0, 10], [0, 0], [0, 1000])]\<rparr>,
      Some \<lparr>word = ''dot'', drawing = [([3], [4], [0])]\<rparr>]))) = 1"
  using driver_plots_first_limit_drawings[of "\<lparr>kind = SerialPort, rx = sconst ''ok'', tx = []\<rparr>"
     "[None,
      Some \<lparr>word = ''line'', drawing = [([0, 10], [0, 0], [0, 1000])]\<rparr>,
      Some \<lparr>word = ''dot'', drawing = [([3], [4], [0])]\<rparr>]"
     1 "\<lambda>k. \<lparr>draw_scale = 1/2, draw_x = 0, draw_y = 0\<rparr>"]
  by (simp add: drawings_of_def plot_drawing_example_slow)



lemma drawing_cmds_example:
  "drawing_cmds \<lparr>word = ''line'', drawing = [([0, 10], [0, 0], [0, 100])]\<rparr>
     \<lparr>draw_scale = 1/2, draw_x = 0, draw_y = 0\<rparr> =
   [PenUp, RapidMove 5 (-5), PenDown, FeedMove 130 (-5) 11500, PenUp]"
  by (simp add: drawing_cmds_def Scaler_init_example stroke_cmds_def segment_cmds_def scale_def
      upt_1_2 feed_move_example_fast)




end
